theory Spec2Isabelle
  imports Main "HOL-Library.Sublist"
begin

section \<open>The outline document model of \<open>lib/orgmode.js\<close>\<close>

text \<open>
  The JavaScript source keeps three kinds of mutable objects: the heading-entries of the
  parsed AST, the arrays of tag strings the headings refer to, and the \<open>OutlineNode\<close>
  wrappers. Objects are identified by their address; the store maps addresses to the
  objects' current fields. Strings and numbers are immutable JavaScript primitives and are
  held by value. Levels and positions are JavaScript numbers with integer values.
\<close>

subsection \<open>Data\<close>

type_synonym addr = nat

datatype error = TypeError

text \<open>What a JavaScript expression that is expected to yield a node may evaluate to.\<close>

datatype val = Null | Undefined | Node addr

text \<open>The heading of an AST entry; \<open>tags\<close> refers to an array object in the store.\<close>

record heading =
  h_title :: string
  h_level :: int
  h_tags :: addr

text \<open>A child of a section: the tagged variant, of which the code reads the \<open>type\<close>.\<close>

record element =
  type :: string
  content :: string

record org_section =
  children :: "element list"

text \<open>
  An AST heading-entry. \<open>e_node\<close> is the property \<open>_node\<close> that \<open>_buildOutlines\<close>
  defines on the entry: \<open>None\<close> while the property does not exist.
\<close>

record entry =
  e_heading :: heading
  e_section :: org_section
  e_node :: "addr option"

record org_option =
  o_name :: string
  o_value :: string

record block =
  b_name :: string
  b_content :: string

text \<open>
  The AST of the parser. The array \<open>outlines\<close> is never changed after parsing, so it is
  held by value, as the list of the addresses of its entries.
\<close>

record ast =
  outlines :: "addr list"
  options :: "org_option list"
  blocks :: "block list"

text \<open>
  An \<open>OutlineNode\<close>: the hidden properties \<open>_data\<close>, \<open>_list\<close>, \<open>_index\<close> and the
  public fields assigned by the constructor.
\<close>

record OutlineNode =
  n_data :: addr
  n_list :: "addr list"
  n_index :: int
  title :: string
  level :: int
  tags :: addr

record store =
  arrays :: "addr \<Rightarrow> string list"
  entries :: "addr \<Rightarrow> entry"
  nodes :: "addr \<Rightarrow> OutlineNode"
  fresh :: addr

text \<open>An \<open>OutlinesArrayList\<close> has the one field \<open>_outlines\<close>, an array of nodes.\<close>

type_synonym OutlinesArrayList = "addr list"

record Orgmode =
  d_outlines :: OutlinesArrayList
  d_ast :: ast

subsection \<open>JavaScript primitives\<close>

text \<open>\<open>xs[i]\<close> on an array: \<open>undefined\<close> (here \<open>None\<close>) outside the array, never an exception.\<close>

definition at :: "'a list \<Rightarrow> int \<Rightarrow> 'a option" where
  "at xs i = (if 0 \<le> i \<and> i < int (length xs) then Some (xs ! nat i) else None)"

text \<open>Reading the property \<open>_node\<close> of an entry.\<close>

definition get_node :: "store \<Rightarrow> addr \<Rightarrow> val" where
  "get_node s e = (case e_node (entries s e) of None \<Rightarrow> Undefined | Some a \<Rightarrow> Node a)"

text \<open>
  \<open>Object.defineProperty(entry, '_node', {get: () => node})\<close>: the property it defines is
  not configurable, so that defining it a second time throws a \<open>TypeError\<close>.
\<close>

definition defineProperty_node :: "store \<Rightarrow> addr \<Rightarrow> addr \<Rightarrow> error + store" where
  "defineProperty_node s e a =
     (case e_node (entries s e) of
        Some _ \<Rightarrow> Inl TypeError
      | None \<Rightarrow> Inr (s\<lparr>entries := (entries s)(e := (entries s e)\<lparr>e_node := Some a\<rparr>)\<rparr>))"

subsection \<open>OutlinesArrayList\<close>

definition OutlinesArrayList_length :: "OutlinesArrayList \<Rightarrow> int" where
  "OutlinesArrayList_length c = int (length c)"

definition getItem :: "OutlinesArrayList \<Rightarrow> int \<Rightarrow> val" where
  "getItem c n = (case at c n of None \<Rightarrow> Undefined | Some a \<Rightarrow> Node a)"

definition first :: "OutlinesArrayList \<Rightarrow> val" where
  "first c = getItem c 0"

definition last_item :: "OutlinesArrayList \<Rightarrow> val" where
  "last_item c = getItem c (OutlinesArrayList_length c - 1)"

definition findByLevel :: "store \<Rightarrow> OutlinesArrayList \<Rightarrow> int \<Rightarrow> addr list" where
  "findByLevel s c l = filter (\<lambda>outline. level (nodes s outline) = l) c"

subsection \<open>OutlineNode\<close>

text \<open>
  The constructor: the fields it sets, and the allocation of the object by \<open>new\<close>.
  \<open>title\<close> and \<open>level\<close> are primitives; \<open>tags\<close> is the reference the heading holds.
\<close>

definition OutlineNode_init :: "store \<Rightarrow> addr \<Rightarrow> int \<Rightarrow> addr list \<Rightarrow> OutlineNode" where
  "OutlineNode_init s d i l =
     \<lparr>n_data = d, n_list = l, n_index = i,
      title = h_title (e_heading (entries s d)),
      level = h_level (e_heading (entries s d)),
      tags = h_tags (e_heading (entries s d))\<rparr>"

definition new_OutlineNode :: "store \<Rightarrow> addr \<Rightarrow> int \<Rightarrow> addr list \<Rightarrow> addr \<times> store" where
  "new_OutlineNode s d i l =
     (let a = fresh s in
      (a, s\<lparr>nodes := (nodes s)(a := OutlineNode_init s d i l), fresh := Suc a\<rparr>))"

definition OutlineNode_tables :: "store \<Rightarrow> addr \<Rightarrow> element list" where
  "OutlineNode_tables s a =
     filter (\<lambda>child. type child = ''table'') (children (e_section (entries s (n_data (nodes s a)))))"

text \<open>
  \<open>next\<close> and \<open>prev\<close>: reading \<open>_node\<close> of \<open>this._list[...]\<close> throws a \<open>TypeError\<close>
  when the array has no element at that index.
\<close>

definition OutlineNode_next :: "store \<Rightarrow> addr \<Rightarrow> error + val" where
  "OutlineNode_next s a =
     (let n = nodes s a in
      if n_index n \<ge> int (length (n_list n)) - 1 then Inr Null
      else (case at (n_list n) (n_index n + 1) of
              None \<Rightarrow> Inl TypeError
            | Some e \<Rightarrow> Inr (get_node s e)))"

definition OutlineNode_prev :: "store \<Rightarrow> addr \<Rightarrow> error + val" where
  "OutlineNode_prev s a =
     (let n = nodes s a in
      if n_index n < 0 then Inr Null
      else (case at (n_list n) (n_index n - 1) of
              None \<Rightarrow> Inl TypeError
            | Some e \<Rightarrow> Inr (get_node s e)))"

text \<open>
  The loop of \<open>children\<close>. Nothing in the loop itself bounds it (in an arbitrary store
  \<open>next\<close> may lead back to a node already visited), so a run that does not return is
  the value \<open>None\<close>.
\<close>

partial_function (option) children_loop ::
  "store \<Rightarrow> addr \<Rightarrow> val \<Rightarrow> addr list \<Rightarrow> (error + addr list) option" where
  "children_loop s this cur cs =
     (case cur of
        Node c \<Rightarrow>
          if level (nodes s c) > level (nodes s this)
          then (case OutlineNode_next s c of
                  Inl e \<Rightarrow> Some (Inl e)
                | Inr cur' \<Rightarrow> children_loop s this cur' (cs @ [c]))
          else Some (Inr cs)
      | _ \<Rightarrow> Some (Inr cs))"

definition OutlineNode_children :: "store \<Rightarrow> addr \<Rightarrow> (error + OutlinesArrayList) option" where
  "OutlineNode_children s this =
     (case OutlineNode_next s this of
        Inl e \<Rightarrow> Some (Inl e)
      | Inr cur \<Rightarrow> children_loop s this cur [])"

definition OutlinesArrayList_tables :: "store \<Rightarrow> OutlinesArrayList \<Rightarrow> element list" where
  "OutlinesArrayList_tables s c =
     foldl (\<lambda>collection outline.
              let tables = OutlineNode_tables s outline in
              if length tables > 0 then collection @ tables else collection) [] c"

subsection \<open>Orgmode\<close>

text \<open>
  \<open>_buildOutlines\<close>: \<open>Array.prototype.map\<close> over \<open>this._ast.outlines\<close> with the index;
  \<open>l\<close> is the whole array, \<open>i\<close> the index of the first element of the rest.
\<close>

fun buildOutlines_map :: "addr list \<Rightarrow> store \<Rightarrow> int \<Rightarrow> addr list \<Rightarrow> error + (addr list \<times> store)" where
  "buildOutlines_map l s i [] = Inr ([], s)"
| "buildOutlines_map l s i (d # ds) =
     (case new_OutlineNode s d i l of (node, s1) \<Rightarrow>
       (case at l i of
          None \<Rightarrow> Inl TypeError
        | Some e \<Rightarrow>
           (case defineProperty_node s1 e node of
              Inl err \<Rightarrow> Inl err
            | Inr s2 \<Rightarrow>
               (case buildOutlines_map l s2 (i + 1) ds of
                  Inl err \<Rightarrow> Inl err
                | Inr (rest, s3) \<Rightarrow> Inr (node # rest, s3)))))"

definition buildOutlines :: "store \<Rightarrow> ast \<Rightarrow> error + (addr list \<times> store)" where
  "buildOutlines s a = buildOutlines_map (outlines a) s 0 (outlines a)"

text \<open>The constructor, from the AST the parser returned.\<close>

definition new_Orgmode :: "store \<Rightarrow> ast \<Rightarrow> error + (Orgmode \<times> store)" where
  "new_Orgmode s a =
     (case buildOutlines s a of
        Inl err \<Rightarrow> Inl err
      | Inr (ns, s') \<Rightarrow> Inr (\<lparr>d_outlines = ns, d_ast = a\<rparr>, s'))"

text \<open>
  The object that \<open>overview\<close> builds starts as \<open>{}\<close>; it is modelled by its own
  properties. An assignment \<open>map[k] = v\<close> creates or overwrites the own property \<open>k\<close>,
  except for the key \<open>__proto__\<close>: that assignment runs the setter inherited from
  \<open>Object.prototype\<close>, which ignores a value that is a string and creates no property.
\<close>

type_synonym object = "string \<rightharpoonup> string"

definition put :: "object \<Rightarrow> string \<Rightarrow> string \<Rightarrow> object" where
  "put m k v = (if k = ''__proto__'' then m else m(k \<mapsto> v))"

text \<open>
  \<open>String.prototype.toLowerCase\<close> on the ASCII range: the letters \<open>A\<close> to \<open>Z\<close> are
  mapped to \<open>a\<close> to \<open>z\<close>, every other character is kept.
\<close>

definition toLowerCase_char :: "char \<Rightarrow> char" where
  "toLowerCase_char c =
     (let n = (of_char c :: nat) in if 65 \<le> n \<and> n \<le> 90 then char_of (n + 32) else c)"

definition toLowerCase :: "string \<Rightarrow> string" where
  "toLowerCase str = map toLowerCase_char str"

definition overview :: "Orgmode \<Rightarrow> object" where
  "overview d =
     foldl (\<lambda>m item. put m (toLowerCase (o_name item)) (o_value item))
       Map.empty (options (d_ast d))"

subsection \<open>What a client can do to a source heading after construction\<close>

text \<open>
  The entry objects stay reachable through the AST and through \<open>toJSON\<close>. A client can
  assign the fields of the heading of the entry at address \<open>e\<close>, and it can change the
  array of tags in place: \<open>entry.heading.tags.push(t)\<close>.
\<close>

datatype mutation =
    SetTitle addr string
  | SetLevel addr int
  | SetTags addr addr
  | PushTag addr string

fun mutate :: "store \<Rightarrow> mutation \<Rightarrow> store" where
  "mutate s (SetTitle e t) =
     s\<lparr>entries := (entries s)(e := (entries s e)\<lparr>e_heading := (e_heading (entries s e))\<lparr>h_title := t\<rparr>\<rparr>)\<rparr>"
| "mutate s (SetLevel e l) =
     s\<lparr>entries := (entries s)(e := (entries s e)\<lparr>e_heading := (e_heading (entries s e))\<lparr>h_level := l\<rparr>\<rparr>)\<rparr>"
| "mutate s (SetTags e r) =
     s\<lparr>entries := (entries s)(e := (entries s e)\<lparr>e_heading := (e_heading (entries s e))\<lparr>h_tags := r\<rparr>\<rparr>)\<rparr>"
| "mutate s (PushTag e t) =
     (let r = h_tags (e_heading (entries s e)) in s\<lparr>arrays := (arrays s)(r := arrays s r @ [t])\<rparr>)"

text \<open>What \<open>node.tags\<close> shows: the current elements of the array the field refers to.\<close>

definition tags_of :: "store \<Rightarrow> addr \<Rightarrow> string list" where
  "tags_of s a = arrays s (tags (nodes s a))"

subsection \<open>The AST as the parser returns it\<close>

text \<open>
  The parser creates one object per heading, and no entry has a property \<open>_node\<close>
  before the document is built.
\<close>

definition parsed :: "store \<Rightarrow> ast \<Rightarrow> bool" where
  "parsed s a \<longleftrightarrow>
     distinct (outlines a) \<and> list_all (\<lambda>e. e_node (entries s e) = None) (outlines a)"

subsection \<open>Example documents\<close>

text \<open>
  Two headings at the levels 1 and 3, the entries at the addresses 0 and 1; their arrays
  of tags are at the addresses 0 and 1 of the arrays. The section of the first holds a
  table, a paragraph and a second table; the options give the title twice. No node is
  allocated yet.
\<close>

definition entry0 :: entry where
  "entry0 =
     \<lparr>e_heading = \<lparr>h_title = ''A'', h_level = 1, h_tags = 0\<rparr>,
      e_section = \<lparr>children = [\<lparr>type = ''table'', content = ''t1''\<rparr>,
                               \<lparr>type = ''paragraph'', content = ''p''\<rparr>,
                               \<lparr>type = ''table'', content = ''t2''\<rparr>]\<rparr>,
      e_node = None\<rparr>"

definition entry1 :: entry where
  "entry1 =
     \<lparr>e_heading = \<lparr>h_title = ''B'', h_level = 3, h_tags = 1\<rparr>,
      e_section = \<lparr>children = []\<rparr>,
      e_node = None\<rparr>"

definition node0 :: OutlineNode where
  "node0 = \<lparr>n_data = 0, n_list = [0, 1], n_index = 0, title = ''A'', level = 1, tags = 0\<rparr>"

definition node1 :: OutlineNode where
  "node1 = \<lparr>n_data = 1, n_list = [0, 1], n_index = 1, title = ''B'', level = 3, tags = 1\<rparr>"

definition store0 :: store where
  "store0 =
     \<lparr>arrays = (\<lambda>_. [])(0 := [''a'']),
      entries = (\<lambda>_. entry1)(0 := entry0, 1 := entry1),
      nodes = (\<lambda>_. node0),
      fresh = 0\<rparr>"

definition ast0 :: ast where
  "ast0 =
     \<lparr>outlines = [0, 1],
      options = [\<lparr>o_name = ''Title'', o_value = ''A''\<rparr>, \<lparr>o_name = ''TITLE'', o_value = ''B''\<rparr>],
      blocks = []\<rparr>"

text \<open>The document built from it, and the store after the construction.\<close>

definition doc0 :: Orgmode where
  "doc0 = \<lparr>d_outlines = [0, 1], d_ast = ast0\<rparr>"

definition store1 :: store where
  "store1 =
     \<lparr>arrays = (\<lambda>_. [])(0 := [''a'']),
      entries = (\<lambda>_. entry1)(0 := entry0\<lparr>e_node := Some 0\<rparr>, 1 := entry1\<lparr>e_node := Some 1\<rparr>),
      nodes = (\<lambda>_. node0)(0 := node0, 1 := node1),
      fresh = 2\<rparr>"

text \<open>A document whose only option is named \<open>__PROTO__\<close>.\<close>

definition doc_proto :: Orgmode where
  "doc_proto =
     \<lparr>d_outlines = [],
      d_ast = \<lparr>outlines = [], options = [\<lparr>o_name = ''__PROTO__'', o_value = ''x''\<rparr>], blocks = []\<rparr>\<rparr>"

section \<open>Construction\<close>

subsection \<open>Array reads\<close>

lemma at_append_length: "at (pre @ d # ds) (int (length pre)) = Some d"
  by (simp add: at_def)

lemma at_nat: "k < length xs \<Longrightarrow> at xs (int k) = Some (xs ! k)"
  by (simp add: at_def)

subsection \<open>One round of the map, and what a successful run leaves behind\<close>

lemma build_map_step:
  assumes "buildOutlines_map (pre @ d # ds) s (int (length pre)) (d # ds) = Inr (ns, s')"
  obtains rest s2 where
    "e_node (entries s d) = None"
    "s2 = s\<lparr>nodes := (nodes s)(fresh s := OutlineNode_init s d (int (length pre)) (pre @ d # ds)),
            fresh := Suc (fresh s),
            entries := (entries s)(d := (entries s d)\<lparr>e_node := Some (fresh s)\<rparr>)\<rparr>"
    "buildOutlines_map ((pre @ [d]) @ ds) s2 (int (length (pre @ [d]))) ds = Inr (rest, s')"
    "ns = fresh s # rest"
  using assms
  by (auto simp: at_append_length new_OutlineNode_def defineProperty_node_def Let_def add.commute
           split: sum.splits option.splits)

lemma build_map_fresh:
  "buildOutlines_map (pre @ ds) s (int (length pre)) ds = Inr (ns, s') \<Longrightarrow> e \<in> set ds \<Longrightarrow>
   e_node (entries s e) = None"
proof (induction ds arbitrary: pre s ns)
  case Nil
  then show ?case by simp
next
  case (Cons d ds)
  from Cons.prems(1) obtain rest s2 where
    dn: "e_node (entries s d) = None" and
    s2: "s2 = s\<lparr>nodes := (nodes s)(fresh s := OutlineNode_init s d (int (length pre)) (pre @ d # ds)),
            fresh := Suc (fresh s),
            entries := (entries s)(d := (entries s d)\<lparr>e_node := Some (fresh s)\<rparr>)\<rparr>" and
    b: "buildOutlines_map ((pre @ [d]) @ ds) s2 (int (length (pre @ [d]))) ds = Inr (rest, s')"
    by (rule build_map_step)
  show ?case
  proof (cases "e = d")
    case True
    then show ?thesis using dn by simp
  next
    case False
    with Cons.prems(2) have "e \<in> set ds" by simp
    from Cons.IH [OF b this] have "e_node (entries s2 e) = None" .
    then show ?thesis using False s2 by simp
  qed
qed

lemma build_map_result:
  "buildOutlines_map (pre @ ds) s (int (length pre)) ds = Inr (ns, s') \<Longrightarrow>
     ns = [fresh s ..< fresh s + length ds] \<and>
     fresh s' = fresh s + length ds \<and>
     arrays s' = arrays s \<and>
     distinct ds \<and>
     (\<forall>a. a < fresh s \<longrightarrow> nodes s' a = nodes s a) \<and>
     (\<forall>e. e \<notin> set ds \<longrightarrow> entries s' e = entries s e) \<and>
     (\<forall>k < length ds.
        nodes s' (fresh s + k) = OutlineNode_init s (ds ! k) (int (length pre + k)) (pre @ ds) \<and>
        entries s' (ds ! k) = (entries s (ds ! k))\<lparr>e_node := Some (fresh s + k)\<rparr>)"
proof (induction ds arbitrary: pre s ns)
  case Nil
  then show ?case by simp
next
  case (Cons d ds)
  from Cons.prems(1) obtain rest s2 where
    dn: "e_node (entries s d) = None" and
    s2: "s2 = s\<lparr>nodes := (nodes s)(fresh s := OutlineNode_init s d (int (length pre)) (pre @ d # ds)),
            fresh := Suc (fresh s),
            entries := (entries s)(d := (entries s d)\<lparr>e_node := Some (fresh s)\<rparr>)\<rparr>" and
    b: "buildOutlines_map ((pre @ [d]) @ ds) s2 (int (length (pre @ [d]))) ds = Inr (rest, s')" and
    ns: "ns = fresh s # rest"
    by (rule build_map_step)
  have f2: "fresh s2 = Suc (fresh s)" and a2: "arrays s2 = arrays s"
    and n2: "nodes s2 = (nodes s)(fresh s := OutlineNode_init s d (int (length pre)) (pre @ d # ds))"
    and e2: "entries s2 = (entries s)(d := (entries s d)\<lparr>e_node := Some (fresh s)\<rparr>)"
    using s2 by simp_all
  from Cons.IH [OF b] have
    I1: "rest = [fresh s2 ..< fresh s2 + length ds]" and
    I2: "fresh s' = fresh s2 + length ds" and
    I3: "arrays s' = arrays s2" and
    I4: "distinct ds" and
    I5: "\<And>a. a < fresh s2 \<Longrightarrow> nodes s' a = nodes s2 a" and
    I6: "\<And>e. e \<notin> set ds \<Longrightarrow> entries s' e = entries s2 e" and
    I7: "\<And>k. k < length ds \<Longrightarrow>
          nodes s' (fresh s2 + k) = OutlineNode_init s2 (ds ! k) (int (length (pre @ [d]) + k)) ((pre @ [d]) @ ds)" and
    I8: "\<And>k. k < length ds \<Longrightarrow>
          entries s' (ds ! k) = (entries s2 (ds ! k))\<lparr>e_node := Some (fresh s2 + k)\<rparr>"
    by blast+
  have d_notin: "d \<notin> set ds"
  proof
    assume "d \<in> set ds"
    from build_map_fresh [OF b this] show False using e2 by simp
  qed
  have init: "\<And>e i l. e \<noteq> d \<Longrightarrow> OutlineNode_init s2 e i l = OutlineNode_init s e i l"
    using e2 by (simp add: OutlineNode_init_def)
  have 1: "ns = [fresh s ..< fresh s + length (d # ds)]"
    using I1 ns f2 by (simp add: upt_conv_Cons del: upt_Suc)
  have 2: "fresh s' = fresh s + length (d # ds)"
    using I2 f2 by simp
  have 3: "arrays s' = arrays s"
    using I3 a2 by simp
  have 4: "distinct (d # ds)"
    using I4 d_notin by simp
  have 5: "\<forall>a. a < fresh s \<longrightarrow> nodes s' a = nodes s a"
    using I5 f2 n2 by simp
  have 6: "\<forall>e. e \<notin> set (d # ds) \<longrightarrow> entries s' e = entries s e"
    using I6 e2 by simp
  have 7: "nodes s' (fresh s + k) = OutlineNode_init s ((d # ds) ! k) (int (length pre + k)) (pre @ d # ds) \<and>
        entries s' ((d # ds) ! k) = (entries s ((d # ds) ! k))\<lparr>e_node := Some (fresh s + k)\<rparr>"
    if k: "k < length (d # ds)" for k
  proof (cases k)
    case 0
    have "nodes s' (fresh s) = nodes s2 (fresh s)" using I5 f2 by simp
    moreover have "entries s' d = entries s2 d" using I6 d_notin by simp
    ultimately show ?thesis using 0 n2 e2 by simp
  next
    case (Suc j)
    with k have j: "j < length ds" by simp
    then have nd: "ds ! j \<noteq> d" using d_notin by (metis nth_mem)
    have "nodes s' (fresh s + k) = nodes s' (fresh s2 + j)" using Suc f2 by simp
    also have "\<dots> = OutlineNode_init s (ds ! j) (int (length (pre @ [d]) + j)) ((pre @ [d]) @ ds)"
      using I7 [OF j] init [OF nd] by simp
    finally have A: "nodes s' (fresh s + k) = OutlineNode_init s ((d # ds) ! k) (int (length pre + k)) (pre @ d # ds)"
      using Suc by simp
    have "entries s' (ds ! j) = (entries s (ds ! j))\<lparr>e_node := Some (fresh s + k)\<rparr>"
      using I8 [OF j] nd e2 f2 Suc by simp
    with A show ?thesis using Suc by simp
  qed
  from 1 2 3 4 5 6 7 show ?case by blast
qed


lemma build_map_total:
  "distinct ds \<Longrightarrow> list_all (\<lambda>e. e_node (entries s e) = None) ds \<Longrightarrow>
   \<exists>ns s'. buildOutlines_map (pre @ ds) s (int (length pre)) ds = Inr (ns, s')"
proof (induction ds arbitrary: pre s)
  case Nil
  then show ?case by simp
next
  case (Cons d ds)
  define s2 where "s2 = s\<lparr>nodes := (nodes s)(fresh s := OutlineNode_init s d (int (length pre)) (pre @ d # ds)),
            fresh := Suc (fresh s),
            entries := (entries s)(d := (entries s d)\<lparr>e_node := Some (fresh s)\<rparr>)\<rparr>"
  have "list_all (\<lambda>e. e_node (entries s2 e) = None) ds"
    using Cons.prems by (auto simp: s2_def list_all_iff)
  with Cons.IH [of s2 "pre @ [d]"] Cons.prems(1) obtain ns s' where
    "buildOutlines_map (pre @ d # ds) s2 (int (length pre) + 1) ds = Inr (ns, s')"
    by (auto simp: add.commute)
  then show ?case using Cons.prems(2)
    by (simp add: at_append_length new_OutlineNode_def defineProperty_node_def Let_def s2_def)
qed

subsection \<open>The store after a successful construction\<close>

lemma built_facts:
  assumes "new_Orgmode s0 a = Inr (d, s)"
  shows "d_ast d = a"
    and "d_outlines d = [fresh s0 ..< fresh s0 + length (outlines a)]"
    and "arrays s = arrays s0"
    and "distinct (outlines a)"
    and "\<And>k. k < length (outlines a) \<Longrightarrow>
           nodes s (d_outlines d ! k) = OutlineNode_init s0 (outlines a ! k) (int k) (outlines a)"
    and "\<And>k. k < length (outlines a) \<Longrightarrow>
           entries s (outlines a ! k) = (entries s0 (outlines a ! k))\<lparr>e_node := Some (d_outlines d ! k)\<rparr>"
    and "\<And>e. e \<notin> set (outlines a) \<Longrightarrow> entries s e = entries s0 e"
proof -
  from assms have d: "d = \<lparr>d_outlines = d_outlines d, d_ast = a\<rparr>"
    and b: "buildOutlines_map ([] @ outlines a) s0 (int (length ([] :: addr list))) (outlines a) = Inr (d_outlines d, s)"
    by (auto simp: new_Orgmode_def buildOutlines_def split: sum.splits)
  from d show "d_ast d = a" by (metis Orgmode.select_convs(2))
  note r = build_map_result [OF b]
  from r show ns: "d_outlines d = [fresh s0 ..< fresh s0 + length (outlines a)]" by blast
  from r show "arrays s = arrays s0" by blast
  from r show "distinct (outlines a)" by blast
  from r show "\<And>e. e \<notin> set (outlines a) \<Longrightarrow> entries s e = entries s0 e" by blast
  fix k assume k: "k < length (outlines a)"
  then have nk: "d_outlines d ! k = fresh s0 + k" using ns by simp
  from r k have "nodes s (fresh s0 + k) = OutlineNode_init s0 (outlines a ! k) (int (length ([] :: addr list) + k)) ([] @ outlines a)"
    by blast
  then show "nodes s (d_outlines d ! k) = OutlineNode_init s0 (outlines a ! k) (int k) (outlines a)"
    using nk by simp
  from r k have "entries s (outlines a ! k) = (entries s0 (outlines a ! k))\<lparr>e_node := Some (fresh s0 + k)\<rparr>"
    by blast
  then show "entries s (outlines a ! k) = (entries s0 (outlines a ! k))\<lparr>e_node := Some (d_outlines d ! k)\<rparr>"
    using nk by simp
qed


lemma built_node:
  assumes "new_Orgmode s0 a = Inr (d, s)" and "k < length (d_outlines d)"
  shows "n_list (nodes s (d_outlines d ! k)) = outlines a"
    and "n_index (nodes s (d_outlines d ! k)) = int k"
    and "n_data (nodes s (d_outlines d ! k)) = outlines a ! k"
    and "level (nodes s (d_outlines d ! k)) = h_level (e_heading (entries s0 (outlines a ! k)))"
    and "title (nodes s (d_outlines d ! k)) = h_title (e_heading (entries s0 (outlines a ! k)))"
    and "tags (nodes s (d_outlines d ! k)) = h_tags (e_heading (entries s0 (outlines a ! k)))"
    and "get_node s (outlines a ! k) = Node (d_outlines d ! k)"
proof -
  have len: "length (d_outlines d) = length (outlines a)"
    using built_facts(2) [OF assms(1)] by simp
  with assms(2) have k: "k < length (outlines a)" by simp
  note n = built_facts(5) [OF assms(1) k]
  show "n_list (nodes s (d_outlines d ! k)) = outlines a"
    and "n_index (nodes s (d_outlines d ! k)) = int k"
    and "n_data (nodes s (d_outlines d ! k)) = outlines a ! k"
    and "level (nodes s (d_outlines d ! k)) = h_level (e_heading (entries s0 (outlines a ! k)))"
    and "title (nodes s (d_outlines d ! k)) = h_title (e_heading (entries s0 (outlines a ! k)))"
    and "tags (nodes s (d_outlines d ! k)) = h_tags (e_heading (entries s0 (outlines a ! k)))"
    by (simp_all add: n OutlineNode_init_def)
  show "get_node s (outlines a ! k) = Node (d_outlines d ! k)"
    by (simp add: get_node_def built_facts(6) [OF assms(1) k])
qed

lemma built_length:
  assumes "new_Orgmode s0 a = Inr (d, s)"
  shows "length (d_outlines d) = length (outlines a)"
  using built_facts(2) [OF assms] by simp

section \<open>Navigation in a built document\<close>

lemma built_next:
  assumes "new_Orgmode s0 a = Inr (d, s)" and "k < length (d_outlines d)"
  shows "OutlineNode_next s (d_outlines d ! k) =
           Inr (if Suc k < length (d_outlines d) then Node (d_outlines d ! Suc k) else Null)"
proof (cases "Suc k < length (d_outlines d)")
  case True
  then have "at (outlines a) (int k + 1) = Some (outlines a ! Suc k)"
    using at_nat [of "Suc k" "outlines a"] built_length [OF assms(1)] by (simp add: add.commute)
  then show ?thesis
    using True built_node(1,2) [OF assms] built_node(7) [OF assms(1) True] built_length [OF assms(1)]
    by (simp add: OutlineNode_next_def Let_def)
next
  case False
  then show ?thesis
    using assms(2) built_node(1,2) [OF assms] built_length [OF assms(1)]
    by (simp add: OutlineNode_next_def Let_def)
qed

lemma built_prev:
  assumes "new_Orgmode s0 a = Inr (d, s)" and "k < length (d_outlines d)"
  shows "OutlineNode_prev s (d_outlines d ! k) =
           (if k = 0 then Inl TypeError else Inr (Node (d_outlines d ! (k - 1))))"
proof (cases k)
  case 0
  then show ?thesis
    using built_node(1,2) [OF assms] by (simp add: OutlineNode_prev_def Let_def at_def)
next
  case (Suc j)
  with assms(2) have j: "j < length (d_outlines d)" by simp
  then have "at (outlines a) (int j) = Some (outlines a ! j)"
    using at_nat [of j "outlines a"] built_length [OF assms(1)] by simp
  then show ?thesis
    using Suc built_node(1,2) [OF assms] built_node(7) [OF assms(1) j]
    by (simp add: OutlineNode_prev_def Let_def)
qed

lemma built_children_loop:
  assumes b: "new_Orgmode s0 a = Inr (d, s)" and "j \<le> length (d_outlines d)"
  shows "children_loop s this (if j < length (d_outlines d) then Node (d_outlines d ! j) else Null) cs =
           Some (Inr (cs @ takeWhile (\<lambda>c. level (nodes s c) > level (nodes s this)) (drop j (d_outlines d))))"
  using assms(2)
proof (induction "length (d_outlines d) - j" arbitrary: j cs)
  case 0
  then show ?case by (subst children_loop.simps) simp
next
  case (Suc m)
  then have j: "j < length (d_outlines d)" by simp
  have dr: "drop j (d_outlines d) = d_outlines d ! j # drop (Suc j) (d_outlines d)"
    using j by (simp add: Cons_nth_drop_Suc)
  show ?case
  proof (cases "level (nodes s (d_outlines d ! j)) > level (nodes s this)")
    case True
    have "m = length (d_outlines d) - Suc j" using Suc.hyps(2) by simp
    from Suc.hyps(1) [OF this, of "cs @ [d_outlines d ! j]"] j
    have "children_loop s this (if Suc j < length (d_outlines d) then Node (d_outlines d ! Suc j) else Null)
            (cs @ [d_outlines d ! j]) =
          Some (Inr ((cs @ [d_outlines d ! j]) @
            takeWhile (\<lambda>c. level (nodes s c) > level (nodes s this)) (drop (Suc j) (d_outlines d))))"
      by simp
    then show ?thesis
      using True j dr built_next [OF b j]
      by (subst children_loop.simps) simp
  next
    case False
    then show ?thesis
      using j dr by (subst children_loop.simps) simp
  qed
qed

lemma built_children:
  assumes b: "new_Orgmode s0 a = Inr (d, s)" and i: "i < length (d_outlines d)"
  shows "OutlineNode_children s (d_outlines d ! i) =
           Some (Inr (takeWhile (\<lambda>c. level (nodes s c) > level (nodes s (d_outlines d ! i)))
                        (drop (Suc i) (d_outlines d))))"
proof -
  from i have "Suc i \<le> length (d_outlines d)" by simp
  from built_children_loop [OF b this, of "d_outlines d ! i" "[]"] show ?thesis
    by (simp add: OutlineNode_children_def built_next [OF b i])
qed


section \<open>The example document\<close>

lemma built0: "new_Orgmode store0 ast0 = Inr (doc0, store1)"
  by (simp add: new_Orgmode_def buildOutlines_def store0_def ast0_def doc0_def store1_def
      new_OutlineNode_def OutlineNode_init_def defineProperty_node_def at_def entry0_def entry1_def
      node0_def node1_def Let_def fun_eq_iff)

lemma parsed0: "parsed store0 ast0"
  by (simp add: parsed_def store0_def ast0_def entry0_def entry1_def)

section \<open>Claims\<close>

subsection \<open>C1: \<open>prev\<close> at the first node\<close>

text \<open>The guard of \<open>prev\<close> covers the negative positions.\<close>

lemma prev_negative: "n_index (nodes s a) < 0 \<Longrightarrow> OutlineNode_prev s a = Inr Null"
  by (simp add: OutlineNode_prev_def Let_def)

text \<open>
  C1 says that \<open>prev()\<close> on the node at position 0 returns "none". In the document
  built from the example AST, \<open>first()\<close> is the node at address 0, its position is 0,
  and \<open>prev()\<close> on it throws a \<open>TypeError\<close>: the guard \<open>_index < 0\<close> lets position 0
  through, and \<open>_list[-1]\<close> is \<open>undefined\<close>.
\<close>

theorem prev_of_first_throws:
  "new_Orgmode store0 ast0 = Inr (doc0, store1) \<and>
   first (d_outlines doc0) = Node 0 \<and>
   n_index (nodes store1 0) = 0 \<and>
   OutlineNode_prev store1 0 = Inl TypeError"
  using built0
  by (simp add: doc0_def first_def getItem_def at_def store1_def node0_def OutlineNode_prev_def Let_def)

subsection \<open>C4: construction wraps every entry, in order\<close>

text \<open>
  C4: for every AST as the parser returns it, the construction succeeds; afterwards
  \<open>length\<close> is the number of entries of \<open>outlines\<close>, the nodes are pairwise different
  objects, and for every \<open>i\<close> below the length the item at index \<open>i\<close> is a node whose
  position is \<open>i\<close> and whose \<open>_data\<close> is the \<open>i\<close>-th entry.
\<close>

theorem build_wraps_every_entry:
  assumes "parsed s0 a"
  shows "\<exists>d s. new_Orgmode s0 a = Inr (d, s) \<and>
           OutlinesArrayList_length (d_outlines d) = int (length (outlines a)) \<and>
           distinct (d_outlines d) \<and>
           (\<forall>i < length (outlines a).
              getItem (d_outlines d) (int i) = Node (d_outlines d ! i) \<and>
              n_index (nodes s (d_outlines d ! i)) = int i \<and>
              n_data (nodes s (d_outlines d ! i)) = outlines a ! i)"
proof -
  from assms build_map_total [of "outlines a" s0 "[]"]
  obtain ns s where "buildOutlines_map (outlines a) s0 0 (outlines a) = Inr (ns, s)"
    by (auto simp: parsed_def)
  then have b: "new_Orgmode s0 a = Inr (\<lparr>d_outlines = ns, d_ast = a\<rparr>, s)"
    by (simp add: new_Orgmode_def buildOutlines_def)
  define d where "d = \<lparr>d_outlines = ns, d_ast = a\<rparr>"
  from b have b': "new_Orgmode s0 a = Inr (d, s)" by (simp add: d_def)
  have len: "length (d_outlines d) = length (outlines a)" by (rule built_length [OF b'])
  have dist: "distinct (d_outlines d)" using built_facts(2) [OF b'] by simp
  have "getItem (d_outlines d) (int i) = Node (d_outlines d ! i) \<and>
        n_index (nodes s (d_outlines d ! i)) = int i \<and>
        n_data (nodes s (d_outlines d ! i)) = outlines a ! i" if "i < length (outlines a)" for i
  proof -
    from that len have i: "i < length (d_outlines d)" by simp
    then show ?thesis
      using built_node(2,3) [OF b' i] by (simp add: getItem_def at_nat)
  qed
  with b' len dist show ?thesis
    by (auto simp: OutlinesArrayList_length_def)
qed

theorem build_wraps_every_entry_witness:
  "parsed store0 ast0 \<and>
   new_Orgmode store0 ast0 = Inr (doc0, store1) \<and>
   OutlinesArrayList_length (d_outlines doc0) = 2 \<and>
   getItem (d_outlines doc0) 1 = Node 1 \<and>
   n_index (nodes store1 1) = 1 \<and>
   n_data (nodes store1 1) = outlines ast0 ! 1"
proof -
  from build_wraps_every_entry [OF parsed0] obtain d s where
    b: "new_Orgmode store0 ast0 = Inr (d, s)" and
    l: "OutlinesArrayList_length (d_outlines d) = int (length (outlines ast0))" and
    a: "\<forall>i < length (outlines ast0).
          getItem (d_outlines d) (int i) = Node (d_outlines d ! i) \<and>
          n_index (nodes s (d_outlines d ! i)) = int i \<and>
          n_data (nodes s (d_outlines d ! i)) = outlines ast0 ! i"
    by blast
  from b built0 have ds: "d = doc0" "s = store1" by simp_all
  have "(1::nat) < length (outlines ast0)" by (simp add: ast0_def)
  with a have "getItem (d_outlines d) (int 1) = Node (d_outlines d ! 1) \<and>
          n_index (nodes s (d_outlines d ! 1)) = int 1 \<and>
          n_data (nodes s (d_outlines d ! 1)) = outlines ast0 ! 1"
    by blast
  moreover have "d_outlines doc0 ! 1 = 1" by (simp add: doc0_def)
  moreover have "int (length (outlines ast0)) = 2" by (simp add: ast0_def)
  ultimately show ?thesis using parsed0 built0 l ds by simp
qed

subsection \<open>C3: \<open>next\<close> and \<open>prev\<close> round trip\<close>

text \<open>
  C3: in a built document, for the node \<open>n\<close> at a position below \<open>length - 1\<close>,
  \<open>n.next()\<close> is the node the document holds at the next position, its position is
  \<open>n.position + 1\<close>, and \<open>prev()\<close> on it is \<open>n\<close> itself (the same object); for the
  node at position \<open>length - 1\<close>, \<open>next()\<close> is \<open>null\<close>.
\<close>

theorem next_prev_roundtrip:
  assumes "new_Orgmode s0 a = Inr (d, s)" and "i < length (d_outlines d)"
  shows "(int i < OutlinesArrayList_length (d_outlines d) - 1 \<longrightarrow>
            OutlineNode_next s (d_outlines d ! i) = Inr (Node (d_outlines d ! Suc i)) \<and>
            getItem (d_outlines d) (n_index (nodes s (d_outlines d ! i)) + 1) = Node (d_outlines d ! Suc i) \<and>
            n_index (nodes s (d_outlines d ! Suc i)) = n_index (nodes s (d_outlines d ! i)) + 1 \<and>
            OutlineNode_prev s (d_outlines d ! Suc i) = Inr (Node (d_outlines d ! i))) \<and>
         (int i = OutlinesArrayList_length (d_outlines d) - 1 \<longrightarrow>
            OutlineNode_next s (d_outlines d ! i) = Inr Null)"
proof (cases "Suc i < length (d_outlines d)")
  case True
  have "getItem (d_outlines d) (int i + 1) = Node (d_outlines d ! Suc i)"
    using at_nat [OF True] by (simp add: getItem_def add.commute)
  then show ?thesis
    using True built_next [OF assms] built_prev [OF assms(1) True]
      built_node(2) [OF assms] built_node(2) [OF assms(1) True]
    by (simp add: OutlinesArrayList_length_def)
next
  case False
  then show ?thesis
    using assms(2) built_next [OF assms] by (simp add: OutlinesArrayList_length_def)
qed

theorem next_prev_roundtrip_witness:
  "new_Orgmode store0 ast0 = Inr (doc0, store1) \<and> (0::nat) < length (d_outlines doc0) \<and>
   (1::nat) < length (d_outlines doc0) \<and>
   OutlineNode_next store1 0 = Inr (Node 1) \<and>
   n_index (nodes store1 1) = n_index (nodes store1 0) + 1 \<and>
   OutlineNode_prev store1 1 = Inr (Node 0) \<and>
   OutlineNode_next store1 1 = Inr Null"
proof -
  have l0: "(0::nat) < length (d_outlines doc0)" and l1: "(1::nat) < length (d_outlines doc0)"
    by (simp_all add: doc0_def)
  from next_prev_roundtrip [OF built0 l0] next_prev_roundtrip [OF built0 l1] built0 l0 l1
  show ?thesis
    by (simp add: doc0_def OutlinesArrayList_length_def)
qed

subsection \<open>C2: the children of a node\<close>

text \<open>
  C2: in a built document, \<open>children\<close> of the node at position \<open>i\<close> returns, and what
  it returns are the nodes after position \<open>i\<close>, in order, up to and excluding the first one
  whose level is not strictly greater than the node's level (or up to the end of the
  document). The last node has no children. In a document with the heading levels 1 and 3
  the first node has one child.
\<close>

theorem children_walk:
  assumes "new_Orgmode s0 a = Inr (d, s)" and "i < length (d_outlines d)"
  shows "OutlineNode_children s (d_outlines d ! i) =
           Some (Inr (takeWhile (\<lambda>c. level (nodes s c) > level (nodes s (d_outlines d ! i)))
                        (drop (Suc i) (d_outlines d)))) \<and>
         (int i = OutlinesArrayList_length (d_outlines d) - 1 \<longrightarrow>
            OutlineNode_children s (d_outlines d ! i) = Some (Inr [])) \<and>
         (map (\<lambda>e. h_level (e_heading (entries s0 e))) (outlines a) = [1, 3] \<longrightarrow>
            (\<exists>cs. OutlineNode_children s (d_outlines d ! 0) = Some (Inr cs) \<and>
                  OutlinesArrayList_length cs = 1))"
proof (intro conjI impI)
  show "OutlineNode_children s (d_outlines d ! i) =
           Some (Inr (takeWhile (\<lambda>c. level (nodes s c) > level (nodes s (d_outlines d ! i)))
                        (drop (Suc i) (d_outlines d))))"
    by (rule built_children [OF assms])
next
  assume "int i = OutlinesArrayList_length (d_outlines d) - 1"
  then have "drop (Suc i) (d_outlines d) = []"
    by (simp add: OutlinesArrayList_length_def)
  then show "OutlineNode_children s (d_outlines d ! i) = Some (Inr [])"
    by (simp add: built_children [OF assms])
next
  assume lv: "map (\<lambda>e. h_level (e_heading (entries s0 e))) (outlines a) = [1, 3]"
  then have "length (map (\<lambda>e. h_level (e_heading (entries s0 e))) (outlines a)) = 2"
    by simp
  then have len: "length (d_outlines d) = 2"
    using built_length [OF assms(1)] by simp
  then have l0: "0 < length (d_outlines d)" and l1: "1 < length (d_outlines d)" by simp_all
  have "h_level (e_heading (entries s0 (outlines a ! 0))) = 1"
    using lv len built_length [OF assms(1)] by (metis l0 nth_Cons_0 nth_map)
  then have lev0: "level (nodes s (d_outlines d ! 0)) = 1"
    using built_node(4) [OF assms(1) l0] by simp
  have "h_level (e_heading (entries s0 (outlines a ! 1))) = [1, 3] ! 1"
    using lv len built_length [OF assms(1)] by (metis l1 nth_map)
  then have lev1: "level (nodes s (d_outlines d ! 1)) = 3"
    using built_node(4) [OF assms(1) l1] by simp
  have "drop (Suc 0) (d_outlines d) = [d_outlines d ! 1]"
    using len by (cases "d_outlines d"; cases "tl (d_outlines d)") auto
  then have "OutlineNode_children s (d_outlines d ! 0) = Some (Inr [d_outlines d ! 1])"
    using lev0 lev1 by (simp add: built_children [OF assms(1) l0])
  then show "\<exists>cs. OutlineNode_children s (d_outlines d ! 0) = Some (Inr cs) \<and>
                  OutlinesArrayList_length cs = 1"
    by (simp add: OutlinesArrayList_length_def)
qed

theorem children_walk_witness:
  "new_Orgmode store0 ast0 = Inr (doc0, store1) \<and>
   (0::nat) < length (d_outlines doc0) \<and> (1::nat) < length (d_outlines doc0) \<and>
   map (\<lambda>e. h_level (e_heading (entries store0 e))) (outlines ast0) = [1, 3] \<and>
   OutlineNode_children store1 0 = Some (Inr [1]) \<and>
   (\<exists>cs. OutlineNode_children store1 0 = Some (Inr cs) \<and> OutlinesArrayList_length cs = 1) \<and>
   int 1 = OutlinesArrayList_length (d_outlines doc0) - 1 \<and>
   OutlineNode_children store1 1 = Some (Inr [])"
proof -
  have l0: "(0::nat) < length (d_outlines doc0)" and l1: "(1::nat) < length (d_outlines doc0)"
    by (simp_all add: doc0_def)
  have lv: "map (\<lambda>e. h_level (e_heading (entries store0 e))) (outlines ast0) = [1, 3]"
    by (simp add: store0_def ast0_def entry0_def entry1_def)
  have tw: "takeWhile (\<lambda>c. level (nodes store1 c) > level (nodes store1 (d_outlines doc0 ! 0)))
              (drop (Suc 0) (d_outlines doc0)) = [1]"
    by (simp add: doc0_def store1_def node0_def node1_def)
  from children_walk [OF built0 l0] children_walk [OF built0 l1] built0 l0 l1 lv tw show ?thesis
    by (simp add: doc0_def OutlinesArrayList_length_def)
qed

subsection \<open>C10: the children are a contiguous run\<close>

text \<open>
  C10: in a built document, the children of the node at position \<open>i\<close> are the \<open>k\<close>
  nodes that follow it in the document, none left out: their positions are
  \<open>i + 1, ..., i + k\<close>. The run is maximal: the level of each of them exceeds the node's
  level, and the node at position \<open>i + k + 1\<close>, if there is one, has a level that does not.
\<close>

theorem children_contiguous:
  assumes "new_Orgmode s0 a = Inr (d, s)" and "i < length (d_outlines d)"
  shows "\<exists>cs. OutlineNode_children s (d_outlines d ! i) = Some (Inr cs) \<and>
           cs = take (length cs) (drop (Suc i) (d_outlines d)) \<and>
           map (\<lambda>c. n_index (nodes s c)) cs = map int [Suc i ..< Suc i + length cs] \<and>
           (\<forall>c \<in> set cs. level (nodes s c) > level (nodes s (d_outlines d ! i))) \<and>
           (Suc i + length cs < length (d_outlines d) \<longrightarrow>
              level (nodes s (d_outlines d ! (Suc i + length cs))) \<le> level (nodes s (d_outlines d ! i)))"
proof -
  define P where "P = (\<lambda>c. level (nodes s c) > level (nodes s (d_outlines d ! i)))"
  define xs where "xs = drop (Suc i) (d_outlines d)"
  define cs where "cs = takeWhile P xs"
  have ch: "OutlineNode_children s (d_outlines d ! i) = Some (Inr cs)"
    unfolding cs_def xs_def P_def by (rule built_children [OF assms])
  have tk: "cs = take (length cs) xs"
    unfolding cs_def by (rule takeWhile_eq_take)
  have le: "length cs \<le> length xs"
    unfolding cs_def by (rule length_takeWhile_le)
  have lx: "length xs = length (d_outlines d) - Suc i"
    by (simp add: xs_def)
  have pos: "map (\<lambda>c. n_index (nodes s c)) cs = map int [Suc i ..< Suc i + length cs]"
  proof (rule nth_equalityI)
    show "length (map (\<lambda>c. n_index (nodes s c)) cs) = length (map int [Suc i ..< Suc i + length cs])"
      by (simp del: upt_Suc)
  next
    fix k assume "k < length (map (\<lambda>c. n_index (nodes s c)) cs)"
    then have k: "k < length cs" by simp
    with le lx have kk: "Suc i + k < length (d_outlines d)" by simp
    have "cs ! k = xs ! k" using tk k by (metis nth_take)
    also have "\<dots> = d_outlines d ! (Suc i + k)"
      using kk by (simp add: xs_def)
    finally have "n_index (nodes s (cs ! k)) = int (Suc i + k)"
      using built_node(2) [OF assms(1) kk] by simp
    then show "map (\<lambda>c. n_index (nodes s c)) cs ! k = map int [Suc i ..< Suc i + length cs] ! k"
      using k by (simp del: upt_Suc)
  qed
  have all: "\<forall>c \<in> set cs. level (nodes s c) > level (nodes s (d_outlines d ! i))"
    using set_takeWhileD [of _ P xs] by (auto simp: cs_def P_def)
  have stop: "level (nodes s (d_outlines d ! (Suc i + length cs))) \<le> level (nodes s (d_outlines d ! i))"
    if "Suc i + length cs < length (d_outlines d)"
  proof -
    from that lx have "length (takeWhile P xs) < length xs" by (simp add: cs_def)
    then have "\<not> P (xs ! length (takeWhile P xs))" by (rule nth_length_takeWhile)
    moreover have "xs ! length cs = d_outlines d ! (Suc i + length cs)"
      using that by (simp add: xs_def)
    ultimately show ?thesis by (simp add: cs_def P_def)
  qed
  from ch tk pos all stop show ?thesis
    unfolding xs_def by blast
qed

theorem children_contiguous_witness:
  "new_Orgmode store0 ast0 = Inr (doc0, store1) \<and> (0::nat) < length (d_outlines doc0) \<and>
   OutlineNode_children store1 0 = Some (Inr [1]) \<and>
   map (\<lambda>c. n_index (nodes store1 c)) [1] = map int [Suc 0 ..< Suc 0 + length [1::nat]] \<and>
   level (nodes store1 1) > level (nodes store1 0)"
proof -
  have l0: "(0::nat) < length (d_outlines doc0)" by (simp add: doc0_def)
  from children_contiguous [OF built0 l0] obtain cs where
    ch: "OutlineNode_children store1 (d_outlines doc0 ! 0) = Some (Inr cs)" and
    tk: "cs = take (length cs) (drop (Suc 0) (d_outlines doc0))" and
    pos: "map (\<lambda>c. n_index (nodes store1 c)) cs = map int [Suc 0 ..< Suc 0 + length cs]" and
    all: "\<forall>c \<in> set cs. level (nodes store1 c) > level (nodes store1 (d_outlines doc0 ! 0))" and
    stop: "Suc 0 + length cs < length (d_outlines doc0) \<longrightarrow>
              level (nodes store1 (d_outlines doc0 ! (Suc 0 + length cs))) \<le> level (nodes store1 (d_outlines doc0 ! 0))"
    by blast
  have "cs = [1]"
  proof (cases cs)
    case Nil
    with stop show ?thesis by (simp add: doc0_def store1_def node0_def node1_def)
  next
    case (Cons c cs')
    with tk show ?thesis by (simp add: doc0_def take_Cons')
  qed
  with ch pos all built0 l0 show ?thesis by (simp add: doc0_def)
qed

subsection \<open>C5: \<open>overview\<close>\<close>

text \<open>
  For every key but \<open>__proto__\<close> the object is the fold the claim describes: the value
  of the last option whose lower-cased name is the key.
\<close>

lemma overview_fold_lookup:
  "k \<noteq> ''__proto__'' \<Longrightarrow>
   foldl (\<lambda>m item. put m (toLowerCase (o_name item)) (o_value item)) m0 xs k =
     (case map_of (rev (map (\<lambda>item. (toLowerCase (o_name item), o_value item)) xs)) k of
        None \<Rightarrow> m0 k
      | Some v \<Rightarrow> Some v)"
  by (induction xs arbitrary: m0) (auto simp: put_def map_add_def split: option.splits)

lemma overview_last_write_wins:
  "k \<noteq> ''__proto__'' \<Longrightarrow>
   overview d k = map_of (rev (map (\<lambda>item. (toLowerCase (o_name item), o_value item)) (options (d_ast d)))) k"
  by (simp add: overview_def overview_fold_lookup split: option.splits)

lemma toLowerCase_examples:
  "toLowerCase ''Title'' = ''title''" "toLowerCase ''TITLE'' = ''title''"
  "toLowerCase ''__PROTO__'' = ''__proto__''"
  by code_simp+

lemma overview_title_example: "overview doc0 ''title'' = Some ''B''"
  by (simp add: overview_def doc0_def ast0_def put_def toLowerCase_examples)

text \<open>
  C5 says that for every option list \<open>overview[lowercase(name)]\<close> is the value of the last
  option of that name. For the option list with the one option \<open>__PROTO__\<close> of value
  \<open>x\<close>, the lower-cased name is \<open>__proto__\<close> and the object \<open>overview\<close> returns has
  no property of that name: the assignment did not store the value.
\<close>

theorem overview_drops_proto:
  "toLowerCase ''__PROTO__'' = ''__proto__'' \<and> overview doc_proto ''__proto__'' = None"
  by (simp add: overview_def doc_proto_def put_def toLowerCase_examples)

subsection \<open>C6: \<open>tables\<close>\<close>

lemma tables_foldl:
  "foldl (\<lambda>collection outline.
            let tables = OutlineNode_tables s outline in
            if length tables > 0 then collection @ tables else collection) acc c =
   acc @ concat (map (OutlineNode_tables s) c)"
  by (induction c arbitrary: acc) (simp_all add: Let_def)

text \<open>
  C6: for every collection, \<open>tables\<close> is the concatenation, in the order of the members,
  of the tables of each member; the tables of a member are the children of the section of
  its entry whose \<open>type\<close> is \<open>table\<close>, in their order. So the result has as many
  elements as the members have tables together: a member without tables adds nothing.
\<close>

theorem tables_concat:
  "OutlinesArrayList_tables s c = concat (map (OutlineNode_tables s) c) \<and>
   OutlineNode_tables s m =
     filter (\<lambda>child. type child = ''table'') (children (e_section (entries s (n_data (nodes s m))))) \<and>
   length (OutlinesArrayList_tables s c) = sum_list (map (\<lambda>m. length (OutlineNode_tables s m)) c)"
proof -
  have "OutlinesArrayList_tables s c = concat (map (OutlineNode_tables s) c)"
    by (simp only: OutlinesArrayList_tables_def tables_foldl append_Nil)
  moreover from this
  have "length (OutlinesArrayList_tables s c) = sum_list (map (\<lambda>m. length (OutlineNode_tables s m)) c)"
    by (simp add: length_concat comp_def)
  ultimately show ?thesis
    by (simp add: OutlineNode_tables_def)
qed

lemma tables_example:
  "OutlinesArrayList_tables store1 (d_outlines doc0) =
     [\<lparr>type = ''table'', content = ''t1''\<rparr>, \<lparr>type = ''table'', content = ''t2''\<rparr>]"
  by (simp add: OutlinesArrayList_tables_def OutlineNode_tables_def doc0_def store1_def
      node0_def node1_def entry0_def entry1_def Let_def)

subsection \<open>C7: \<open>findByLevel\<close>\<close>

text \<open>
  C7: for every collection and level, \<open>findByLevel\<close> returns members of the collection
  in their original order, they are exactly the members whose level is the given one
  (each as often as the collection holds it), and the result is empty when no member has
  that level.
\<close>

theorem findByLevel_exact:
  "subseq (findByLevel s c l) c \<and>
   set (findByLevel s c l) = {m \<in> set c. level (nodes s m) = l} \<and>
   length (findByLevel s c l) = card {i. i < length c \<and> level (nodes s (c ! i)) = l} \<and>
   ((\<forall>m \<in> set c. level (nodes s m) \<noteq> l) \<longrightarrow> findByLevel s c l = [])"
  by (auto simp: findByLevel_def length_filter_conv_card filter_empty_conv)

theorem findByLevel_exact_witness:
  "level (nodes store1 0) \<noteq> 5 \<and> level (nodes store1 1) \<noteq> 5 \<and>
   findByLevel store1 [0, 1] 5 = [] \<and>
   set (findByLevel store1 [0, 1] 3) = {1} \<and>
   length (findByLevel store1 [0, 1] 3) = 1"
proof -
  have a: "level (nodes store1 0) = 1" "level (nodes store1 1) = 3"
    by (simp_all add: store1_def node0_def node1_def)
  have b: "{m \<in> set [0, 1::nat]. level (nodes store1 m) = 3} = {1}"
    using a by auto
  have d: "set (findByLevel store1 [0, 1] 3) = {1}"
    using findByLevel_exact [of store1 "[0, 1]" 3] b by simp
  have e: "findByLevel store1 [0, 1] 5 = []"
    using findByLevel_exact [of store1 "[0, 1]" 5] a by simp
  have f: "findByLevel store1 [0, 1] 3 = [1]"
    by (simp add: findByLevel_def store1_def node0_def node1_def)
  from d e f show ?thesis by (simp add: store1_def node0_def node1_def)
qed

subsection \<open>C8: \<open>first\<close> and \<open>last\<close>\<close>

text \<open>
  C8: on the empty collection \<open>first()\<close> and \<open>last()\<close> are \<open>undefined\<close>, and neither
  raises (reading index \<open>-1\<close> of an array is not an error); on a non-empty collection
  they are \<open>item(0)\<close> and \<open>item(length - 1)\<close>, the first and the last member.
\<close>

theorem first_last_absent:
  "first [] = Undefined \<and> last_item [] = Undefined \<and>
   (c \<noteq> [] \<longrightarrow>
      first c = getItem c 0 \<and> first c = Node (hd c) \<and>
      last_item c = getItem c (OutlinesArrayList_length c - 1) \<and> last_item c = Node (last c))"
proof -
  have "at c (int (length c) - 1) = Some (last c)" if "c \<noteq> []"
    using that by (simp add: at_def last_conv_nth nat_diff_distrib')
  moreover have "at c 0 = Some (hd c)" if "c \<noteq> []"
    using that by (simp add: at_def hd_conv_nth)
  ultimately show ?thesis
    by (simp add: first_def last_item_def getItem_def OutlinesArrayList_length_def at_def)
qed

theorem first_last_absent_witness:
  "[0, 1::nat] \<noteq> [] \<and> first [0, 1] = Node 0 \<and> last_item [0, 1] = Node 1 \<and>
   first [] = Undefined \<and> last_item [] = Undefined"
  using first_last_absent [of "[0, 1]"]
  by (simp add: getItem_def at_def OutlinesArrayList_length_def)

subsection \<open>C9: the fields of a node and later changes of the heading\<close>

text \<open>No change a client makes to a heading or to an array of tags touches a node object.\<close>

lemma mutate_nodes: "nodes (mutate s m) = nodes s"
  by (cases m) (simp_all add: Let_def)

lemma mutations_nodes: "nodes (foldl mutate s ms) = nodes s"
  by (induction ms arbitrary: s) (simp_all add: mutate_nodes)

text \<open>
  C9 says that \<open>tags\<close> is a copy, so that changing the tags of the source heading after
  the construction does not change the tags of the node. In the example document the node
  at address 0 wraps the entry at address 0 and shows the tags \<open>a\<close>; after
  \<open>entry.heading.tags.push('x')\<close> it shows \<open>a, x\<close>.
\<close>

theorem tags_shared_counterexample:
  "new_Orgmode store0 ast0 = Inr (doc0, store1) \<and>
   n_data (nodes store1 0) = 0 \<and>
   tags_of store1 0 = [''a''] \<and>
   tags_of (mutate store1 (PushTag 0 ''x'')) 0 = [''a'', ''x''] \<and>
   tags_of (mutate store1 (PushTag 0 ''x'')) 0 \<noteq> tags_of store1 0"
  using built0
  by (simp add: tags_of_def store1_def node0_def node1_def entry0_def entry1_def Let_def)

text \<open>
  C9 as amended: in a built document, \<open>title\<close> and \<open>level\<close> of the node at position
  \<open>i\<close> are the values the heading of the \<open>i\<close>-th entry had at construction, and the field
  \<open>tags\<close> is the reference that heading held then, whatever the client does afterwards
  to headings and tag arrays. The array is shared, not copied: assigning another array to
  \<open>heading.tags\<close> leaves what \<open>node.tags\<close> shows unchanged, and a \<open>push\<close> on the
  heading's array shows in \<open>node.tags\<close>.
\<close>

theorem fields_after_mutation:
  assumes "new_Orgmode s0 a = Inr (d, s)" and "i < length (d_outlines d)"
  shows "title (nodes (foldl mutate s ms) (d_outlines d ! i)) = h_title (e_heading (entries s0 (outlines a ! i))) \<and>
         level (nodes (foldl mutate s ms) (d_outlines d ! i)) = h_level (e_heading (entries s0 (outlines a ! i))) \<and>
         tags (nodes (foldl mutate s ms) (d_outlines d ! i)) = h_tags (e_heading (entries s0 (outlines a ! i))) \<and>
         tags_of (mutate s (SetTags (outlines a ! i) r)) (d_outlines d ! i) = tags_of s (d_outlines d ! i) \<and>
         tags_of (mutate s (PushTag (outlines a ! i) t)) (d_outlines d ! i) = tags_of s (d_outlines d ! i) @ [t]"
proof -
  from assms(2) have k: "i < length (outlines a)"
    using built_length [OF assms(1)] by simp
  have "h_tags (e_heading (entries s (outlines a ! i))) = h_tags (e_heading (entries s0 (outlines a ! i)))"
    by (simp add: built_facts(6) [OF assms(1) k])
  then have same: "h_tags (e_heading (entries s (outlines a ! i))) = tags (nodes s (d_outlines d ! i))"
    using built_node(6) [OF assms] by simp
  have "tags_of (mutate s (PushTag (outlines a ! i) t)) (d_outlines d ! i) = tags_of s (d_outlines d ! i) @ [t]"
    using same by (simp add: tags_of_def Let_def)
  moreover have "tags_of (mutate s (SetTags (outlines a ! i) r)) (d_outlines d ! i) = tags_of s (d_outlines d ! i)"
    by (simp add: tags_of_def)
  ultimately show ?thesis
    using built_node(4,5,6) [OF assms] by (simp add: mutations_nodes)
qed

theorem fields_after_mutation_witness:
  "new_Orgmode store0 ast0 = Inr (doc0, store1) \<and> (0::nat) < length (d_outlines doc0) \<and>
   title (nodes (foldl mutate store1 [SetTitle 0 ''Z'', SetLevel 0 7, SetTags 0 1, PushTag 0 ''y'']) 0) = ''A'' \<and>
   level (nodes (foldl mutate store1 [SetTitle 0 ''Z'', SetLevel 0 7, SetTags 0 1, PushTag 0 ''y'']) 0) = 1 \<and>
   tags (nodes (foldl mutate store1 [SetTitle 0 ''Z'', SetLevel 0 7, SetTags 0 1, PushTag 0 ''y'']) 0) = 0 \<and>
   tags_of (mutate store1 (SetTags 0 1)) 0 = tags_of store1 0 \<and>
   tags_of (mutate store1 (PushTag 0 ''x'')) 0 = tags_of store1 0 @ [''x'']"
proof -
  have l0: "(0::nat) < length (d_outlines doc0)" by (simp add: doc0_def)
  from fields_after_mutation [OF built0 l0,
      of "[SetTitle 0 ''Z'', SetLevel 0 7, SetTags 0 1, PushTag 0 ''y'']" 1 "''x''"] built0 l0
  show ?thesis
    by (simp add: doc0_def ast0_def store0_def entry0_def)
qed

end
